theory Spec2Isabelle
  imports Main
begin

section \<open>The jackd client: a shallow embedding of src/index.js\<close>

text \<open>
  The client speaks the beanstalkd text protocol over a socket whose encoding is
  \<^verbatim>\<open>ascii\<close>: one character of a JavaScript string is one byte on the wire, so a
  string of the program is a \<^typ>\<open>string\<close> (a list of 8-bit characters) here and
  \<^verbatim>\<open>.length\<close> is \<^const>\<open>length\<close>.
\<close>

subsection \<open>Bytes and the string methods the program calls\<close>

definition CR :: char where
  "CR = CHR 0x0D"

definition LF :: char where
  "LF = CHR 0x0A"

text \<open>The line delimiter, written \<^verbatim>\<open>'\r\n'\<close> in the source.\<close>

definition CRLF :: string where
  "CRLF = [CR, LF]"

text \<open>\<^verbatim>\<open>s.startsWith(p)\<close>\<close>

definition startsWith :: "string \<Rightarrow> string \<Rightarrow> bool" where
  "startsWith s p = (take (length p) s = p)"

text \<open>\<^verbatim>\<open>s.indexOf(pat)\<close>: the first position where \<open>pat\<close> occurs in \<open>s\<close>, or \<open>-1\<close>.\<close>

fun indexOf :: "string \<Rightarrow> string \<Rightarrow> int" where
  "indexOf [] pat = (if pat = [] then 0 else - 1)"
| "indexOf (c # cs) pat =
     (if startsWith (c # cs) pat then 0
      else (let i = indexOf cs pat in if i < 0 then - 1 else i + 1))"

text \<open>\<^verbatim>\<open>s.substring(i, j)\<close> for \<open>0 \<le> i \<le> j\<close>, the only way the program calls it.\<close>

definition substring :: "string \<Rightarrow> nat \<Rightarrow> nat \<Rightarrow> string" where
  "substring s i j = take (j - i) (drop i s)"

text \<open>
  \<^verbatim>\<open>s.split(' ')\<close>: the pieces between the separators; the empty string gives one
  empty piece. The result is never empty, so the last branch of the \<open>case\<close> is never taken.
\<close>

fun split :: "string \<Rightarrow> char \<Rightarrow> string list" where
  "split [] sep = [[]]"
| "split (c # cs) sep =
     (if c = sep then [] # split cs sep
      else (case split cs sep of w # ws \<Rightarrow> (c # w) # ws | [] \<Rightarrow> [[c]]))"

text \<open>
  \<^verbatim>\<open>const [, x] = response.split(' ')\<close>: the second piece, \<^verbatim>\<open>undefined\<close>
  (\<open>None\<close>) when there is none.
\<close>

definition second :: "string list \<Rightarrow> string option" where
  "second ws = (case ws of _ # x # _ \<Rightarrow> Some x | _ \<Rightarrow> None)"

subsection \<open>Decimal text of a number\<close>

text \<open>The character of a decimal digit \<open>d < 10\<close>.\<close>

definition digit :: "nat \<Rightarrow> char" where
  "digit d = ''0123456789'' ! d"

function show_nat :: "nat \<Rightarrow> string" where
  "show_nat n = (if n < 10 then [digit n] else show_nat (n div 10) @ [digit (n mod 10)])"
  by pat_completeness auto
termination
  by (relation "measure id") auto

declare show_nat.simps [simp del]

definition show_int :: "int \<Rightarrow> string" where
  "show_int i = (if i < 0 then CHR ''-'' # show_nat (nat (- i)) else show_nat (nat i))"

subsection \<open>JavaScript values passed as arguments\<close>

text \<open>
  An object is represented by what the encoders observe of it: the text
  \<^verbatim>\<open>JSON.stringify\<close> gives for it and the text a template literal gives for it
  (\<^verbatim>\<open>[object Object]\<close> for a plain object). Numbers are the integer-valued ones
  of magnitude below \<open>10\<^sup>2\<^sup>1\<close>, whose text is their decimal numeral; fractions,
  \<^verbatim>\<open>NaN\<close>, the infinities and the larger magnitudes, which print in exponent form,
  are not values of this type's intended range, and neither are buffers and typed arrays.
\<close>

record jsobject =
  json_text :: string
  string_text :: string

datatype jsval =
    JUndefined
  | JNull
  | JBool bool
  | JNum int
  | JStr string
  | JObj jsobject

text \<open>Truthiness, as \<^verbatim>\<open>assert(x)\<close> and \<^verbatim>\<open>x || d\<close> test it.\<close>

fun truthy :: "jsval \<Rightarrow> bool" where
  "truthy JUndefined = False"
| "truthy JNull = False"
| "truthy (JBool b) = b"
| "truthy (JNum n) = (n \<noteq> 0)"
| "truthy (JStr s) = (s \<noteq> [])"
| "truthy (JObj ob) = True"

text \<open>\<^verbatim>\<open>x || d\<close>\<close>

definition orElse :: "jsval \<Rightarrow> jsval \<Rightarrow> jsval" where
  "orElse x d = (if truthy x then x else d)"

text \<open>The text of a value inside a template literal, \<^verbatim>\<open>`${x}`\<close>.\<close>

fun toStr :: "jsval \<Rightarrow> string" where
  "toStr JUndefined = ''undefined''"
| "toStr JNull = ''null''"
| "toStr (JBool b) = (if b then ''true'' else ''false'')"
| "toStr (JNum n) = show_int n"
| "toStr (JStr s) = s"
| "toStr (JObj ob) = string_text ob"

text \<open>
  \<^verbatim>\<open>typeof x === 'object'\<close>, which holds of \<^verbatim>\<open>null\<close> too; the text
  \<^verbatim>\<open>JSON.stringify\<close> gives for \<^verbatim>\<open>null\<close> is \<^verbatim>\<open>null\<close>.
\<close>

fun is_object :: "jsval \<Rightarrow> bool" where
  "is_object JNull = True"
| "is_object (JObj ob) = True"
| "is_object _ = False"

subsection \<open>Errors\<close>

text \<open>
  \<open>AssertionError\<close>: a failed \<^verbatim>\<open>assert\<close>. \<open>TypeError\<close>: a value of the wrong type
  handed to \<^verbatim>\<open>Buffer.from\<close> or \<^verbatim>\<open>socket.write\<close>. \<open>ProtocolError line\<close>:
  \<^verbatim>\<open>new Error(response)\<close> of \<^verbatim>\<open>validateAgainstErrors\<close>, its message the raw line.
  \<open>UnexpectedResponse line\<close>: the error of \<^verbatim>\<open>invalidResponse\<close>, message
  \<^verbatim>\<open>unexpected-response\<close>, field \<^verbatim>\<open>response\<close> the raw line.
  \<open>TransportError\<close>: the error \<^verbatim>\<open>socket.write\<close> reports to its callback.
\<close>

datatype error =
    AssertionError
  | TypeError
  | ProtocolError string
  | UnexpectedResponse string
  | TransportError

subsection \<open>The status tokens\<close>

definition RESERVED :: string where "RESERVED = ''RESERVED''"
definition INSERTED :: string where "INSERTED = ''INSERTED''"
definition USING :: string where "USING = ''USING''"
definition TOUCHED :: string where "TOUCHED = ''TOUCHED''"
definition DELETED :: string where "DELETED = ''DELETED''"
definition BURIED :: string where "BURIED = ''BURIED''"
definition RELEASED :: string where "RELEASED = ''RELEASED''"
definition NOT_FOUND :: string where "NOT_FOUND = ''NOT_FOUND''"
definition OUT_OF_MEMORY :: string where "OUT_OF_MEMORY = ''OUT_OF_MEMORY''"
definition INTERNAL_ERROR :: string where "INTERNAL_ERROR = ''INTERNAL_ERROR''"
definition BAD_FORMAT :: string where "BAD_FORMAT = ''BAD_FORMAT''"
definition UNKNOWN_COMMAND :: string where "UNKNOWN_COMMAND = ''UNKNOWN_COMMAND''"
definition EXPECTED_CRLF :: string where "EXPECTED_CRLF = ''EXPECTED_CRLF''"
definition JOB_TOO_BIG :: string where "JOB_TOO_BIG = ''JOB_TOO_BIG''"
definition DRAINING :: string where "DRAINING = ''DRAINING''"
definition TIMED_OUT :: string where "TIMED_OUT = ''TIMED_OUT''"
definition DEADLINE_SOON :: string where "DEADLINE_SOON = ''DEADLINE_SOON''"
definition FOUND :: string where "FOUND = ''FOUND''"
definition WATCHING :: string where "WATCHING = ''WATCHING''"
definition NOT_IGNORED :: string where "NOT_IGNORED = ''NOT_IGNORED''"
definition KICKED :: string where "KICKED = ''KICKED''"
definition PAUSED :: string where "PAUSED = ''PAUSED''"

lemmas token_defs =
  RESERVED_def INSERTED_def USING_def TOUCHED_def DELETED_def BURIED_def RELEASED_def
  NOT_FOUND_def OUT_OF_MEMORY_def INTERNAL_ERROR_def BAD_FORMAT_def UNKNOWN_COMMAND_def
  EXPECTED_CRLF_def JOB_TOO_BIG_def DRAINING_def TIMED_OUT_def DEADLINE_SOON_def FOUND_def
  WATCHING_def NOT_IGNORED_def KICKED_def PAUSED_def

subsection \<open>The error classifier\<close>

text \<open>The five tokens \<^verbatim>\<open>validateAgainstErrors\<close> tests for every command, in its order.\<close>

definition errors :: "string list" where
  "errors = [OUT_OF_MEMORY, INTERNAL_ERROR, BAD_FORMAT, TIMED_OUT, UNKNOWN_COMMAND]"

text \<open>
  \<^verbatim>\<open>validateAgainstErrors(response, additionalErrors)\<close>: throws
  \<^verbatim>\<open>new Error(response)\<close> when the response starts with one of the tokens.
\<close>

definition validateAgainstErrors :: "string \<Rightarrow> string list \<Rightarrow> error + unit" where
  "validateAgainstErrors response additionalErrors =
     (if list_ex (\<lambda>e. startsWith response e) (errors @ additionalErrors)
      then Inl (ProtocolError response) else Inr ())"

definition invalidResponse :: "string \<Rightarrow> error + 'a" where
  "invalidResponse response = Inl (UnexpectedResponse response)"

subsection \<open>What a decoder returns\<close>

text \<open>
  A response function returns \<^verbatim>\<open>undefined\<close>, a string, an object
  \<^verbatim>\<open>{ id, payload }\<close> or a function of the deferred response (the continuation
  of a two-phase response), or it throws.
\<close>

datatype result =
    Undefined
  | Str string
  | Job "string option" string
  | Fn "string \<Rightarrow> error + result"

text \<open>\<^verbatim>\<open>typeof result === 'function'\<close>\<close>

fun is_function :: "result \<Rightarrow> bool" where
  "is_function (Fn k) = True"
| "is_function _ = False"

text \<open>A destructured piece as a result: the string, or \<^verbatim>\<open>undefined\<close>.\<close>

definition piece :: "string option \<Rightarrow> result" where
  "piece x = (case x of Some s \<Rightarrow> Str s | None \<Rightarrow> Undefined)"

subsection \<open>The response functions of the commands\<close>

datatype command =
    ExecuteCommand
  | ExecuteMultiPartCommand
  | PauseTube
  | Put
  | Use
  | Reserve
  | ReserveWithTimeout
  | Delete
  | Release
  | Bury
  | Touch
  | Watch
  | Ignore
  | Peek
  | Kick
  | KickJob
  | GetCurrentTube

definition executeCommand_response :: "string \<Rightarrow> error + result" where
  "executeCommand_response response =
     (case validateAgainstErrors response [] of
        Inl e \<Rightarrow> Inl e
      | Inr _ \<Rightarrow> Inr (Str response))"

definition executeMultiPartCommand_response :: "string \<Rightarrow> error + result" where
  "executeMultiPartCommand_response response =
     (case validateAgainstErrors response [] of
        Inl e \<Rightarrow> Inl e
      | Inr _ \<Rightarrow> Inr (Fn (\<lambda>deferredResponse. Inr (Str deferredResponse))))"

definition pauseTube_response :: "string \<Rightarrow> error + result" where
  "pauseTube_response response =
     (case validateAgainstErrors response [NOT_FOUND] of
        Inl e \<Rightarrow> Inl e
      | Inr _ \<Rightarrow> if response = PAUSED then Inr Undefined else invalidResponse response)"

definition put_response :: "string \<Rightarrow> error + result" where
  "put_response response =
     (case validateAgainstErrors response [BURIED, EXPECTED_CRLF, JOB_TOO_BIG, DRAINING] of
        Inl e \<Rightarrow> Inl e
      | Inr _ \<Rightarrow>
          if startsWith response INSERTED then Inr (piece (second (split response CHR '' '')))
          else invalidResponse response)"

definition use_response :: "string \<Rightarrow> error + result" where
  "use_response response =
     (case validateAgainstErrors response [] of
        Inl e \<Rightarrow> Inl e
      | Inr _ \<Rightarrow>
          if startsWith response USING then Inr (piece (second (split response CHR '' '')))
          else invalidResponse response)"

definition reserveResponseHandler :: "string \<Rightarrow> error + result" where
  "reserveResponseHandler response =
     (case validateAgainstErrors response [DEADLINE_SOON, TIMED_OUT] of
        Inl e \<Rightarrow> Inl e
      | Inr _ \<Rightarrow>
          if startsWith response RESERVED
          then Inr (Fn (\<lambda>deferredResponse.
                 Inr (Job (second (split response CHR '' '')) deferredResponse)))
          else invalidResponse response)"

definition delete_response :: "string \<Rightarrow> error + result" where
  "delete_response response =
     (case validateAgainstErrors response [NOT_FOUND] of
        Inl e \<Rightarrow> Inl e
      | Inr _ \<Rightarrow> if response = DELETED then Inr Undefined else invalidResponse response)"

definition release_response :: "string \<Rightarrow> error + result" where
  "release_response response =
     (case validateAgainstErrors response [BURIED, NOT_FOUND] of
        Inl e \<Rightarrow> Inl e
      | Inr _ \<Rightarrow> if response = RELEASED then Inr Undefined else invalidResponse response)"

definition bury_response :: "string \<Rightarrow> error + result" where
  "bury_response response =
     (case validateAgainstErrors response [NOT_FOUND] of
        Inl e \<Rightarrow> Inl e
      | Inr _ \<Rightarrow> if response = BURIED then Inr Undefined else invalidResponse response)"

definition touch_response :: "string \<Rightarrow> error + result" where
  "touch_response response =
     (case validateAgainstErrors response [NOT_FOUND] of
        Inl e \<Rightarrow> Inl e
      | Inr _ \<Rightarrow> if response = TOUCHED then Inr Undefined else invalidResponse response)"

definition watch_response :: "string \<Rightarrow> error + result" where
  "watch_response response =
     (case validateAgainstErrors response [] of
        Inl e \<Rightarrow> Inl e
      | Inr _ \<Rightarrow>
          if startsWith response WATCHING then Inr (piece (second (split response CHR '' '')))
          else invalidResponse response)"

definition ignore_response :: "string \<Rightarrow> error + result" where
  "ignore_response response =
     (case validateAgainstErrors response [NOT_IGNORED] of
        Inl e \<Rightarrow> Inl e
      | Inr _ \<Rightarrow>
          if startsWith response WATCHING then Inr (piece (second (split response CHR '' '')))
          else invalidResponse response)"

definition peek_response :: "string \<Rightarrow> error + result" where
  "peek_response response =
     (case validateAgainstErrors response [NOT_FOUND] of
        Inl e \<Rightarrow> Inl e
      | Inr _ \<Rightarrow>
          if startsWith response FOUND
          then Inr (Fn (\<lambda>deferredResponse.
                 Inr (Job (second (split response CHR '' '')) deferredResponse)))
          else invalidResponse response)"

definition kick_response :: "string \<Rightarrow> error + result" where
  "kick_response response =
     (case validateAgainstErrors response [] of
        Inl e \<Rightarrow> Inl e
      | Inr _ \<Rightarrow> if response = KICKED then Inr Undefined else invalidResponse response)"

definition kickJob_response :: "string \<Rightarrow> error + result" where
  "kickJob_response response =
     (case validateAgainstErrors response [NOT_FOUND] of
        Inl e \<Rightarrow> Inl e
      | Inr _ \<Rightarrow> if response = KICKED then Inr Undefined else invalidResponse response)"

definition getCurrentTube_response :: "string \<Rightarrow> error + result" where
  "getCurrentTube_response response =
     (case validateAgainstErrors response [NOT_FOUND] of
        Inl e \<Rightarrow> Inl e
      | Inr _ \<Rightarrow>
          if startsWith response USING then Inr (piece (second (split response CHR '' '')))
          else invalidResponse response)"

text \<open>The second argument of \<^verbatim>\<open>createCommandHandler\<close>, per command.\<close>

fun responseFunction :: "command \<Rightarrow> string \<Rightarrow> error + result" where
  "responseFunction ExecuteCommand = executeCommand_response"
| "responseFunction ExecuteMultiPartCommand = executeMultiPartCommand_response"
| "responseFunction PauseTube = pauseTube_response"
| "responseFunction Put = put_response"
| "responseFunction Use = use_response"
| "responseFunction Reserve = reserveResponseHandler"
| "responseFunction ReserveWithTimeout = reserveResponseHandler"
| "responseFunction Delete = delete_response"
| "responseFunction Release = release_response"
| "responseFunction Bury = bury_response"
| "responseFunction Touch = touch_response"
| "responseFunction Watch = watch_response"
| "responseFunction Ignore = ignore_response"
| "responseFunction Peek = peek_response"
| "responseFunction Kick = kick_response"
| "responseFunction KickJob = kickJob_response"
| "responseFunction GetCurrentTube = getCurrentTube_response"

lemmas response_defs =
  executeCommand_response_def executeMultiPartCommand_response_def pauseTube_response_def
  put_response_def use_response_def reserveResponseHandler_def delete_response_def
  release_response_def bury_response_def touch_response_def watch_response_def
  ignore_response_def peek_response_def kick_response_def kickJob_response_def
  getCurrentTube_response_def

subsection \<open>The exchange: the closure of one call of a command\<close>

text \<open>
  The state a call of \<^verbatim>\<open>command()\<close> owns once the command is written: its
  \<^verbatim>\<open>buffer\<close>, whether \<^verbatim>\<open>processIncomingData\<close> is still the socket's
  \<^verbatim>\<open>data\<close> listener, and how the promise was settled, if it was.
\<close>

datatype outcome = Resolved result | Rejected error

record exchange =
  buffer :: string
  listening :: bool
  settled :: "outcome option"

definition new_exchange :: exchange where
  "new_exchange = \<lparr>buffer = [], listening = True, settled = None\<rparr>"

definition removeListener :: "exchange \<Rightarrow> exchange" where
  "removeListener st = st\<lparr>listening := False\<rparr>"

text \<open>Settling a promise a second time does nothing.\<close>

definition resolve :: "exchange \<Rightarrow> result \<Rightarrow> exchange" where
  "resolve st r = (case settled st of None \<Rightarrow> st\<lparr>settled := Some (Resolved r)\<rparr> | Some _ \<Rightarrow> st)"

definition reject :: "exchange \<Rightarrow> error \<Rightarrow> exchange" where
  "reject st e = (case settled st of None \<Rightarrow> st\<lparr>settled := Some (Rejected e)\<rparr> | Some _ \<Rightarrow> st)"

text \<open>
  \<^verbatim>\<open>processIncomingData(chunk, responseFunctionOverride)\<close>; \<open>rf\<close> is the
  \<^verbatim>\<open>responseFunction\<close> of the enclosing \<^verbatim>\<open>createCommandHandler\<close>, the
  override is \<open>None\<close> when the argument is absent.
\<close>

function processIncomingData ::
  "(string \<Rightarrow> error + result) \<Rightarrow> exchange \<Rightarrow> string \<Rightarrow> (string \<Rightarrow> error + result) option
     \<Rightarrow> exchange" where
  "processIncomingData rf st chunk responseFunctionOverride =
     (let buf = buffer st @ chunk;
          delimiterIndex = indexOf buf CRLF;
          isLine = (delimiterIndex > - 1)
      in if \<not> isLine then st\<lparr>buffer := buf\<rparr>
         else
           (let head = substring buf 0 (nat delimiterIndex);
                tail = substring buf (nat delimiterIndex + 2) (length buf);
                st1 = st\<lparr>buffer := []\<rparr>
            in case (case responseFunctionOverride of Some f \<Rightarrow> f | None \<Rightarrow> rf) head of
                 Inl err \<Rightarrow> reject (removeListener st1) err
               | Inr res \<Rightarrow>
                   (case res of
                      Fn k \<Rightarrow>
                        if tail \<noteq> [] then processIncomingData rf st1 tail (Some k)
                        else resolve (removeListener st1) res
                    | _ \<Rightarrow> resolve (removeListener st1) res)))"
  by pat_completeness auto
termination
  by (relation "measure (\<lambda>(rf, st, chunk, ov). length (buffer st) + length chunk)")
     (auto simp: substring_def)

declare processIncomingData.simps [simp del]

text \<open>
  The socket emits \<^verbatim>\<open>data\<close> with one chunk: the listener, if still attached, is
  called with the chunk alone.
\<close>

definition on_data :: "(string \<Rightarrow> error + result) \<Rightarrow> exchange \<Rightarrow> string \<Rightarrow> exchange" where
  "on_data rf st chunk = (if listening st then processIncomingData rf st chunk None else st)"

text \<open>The chunks of a response, delivered in order to a fresh exchange.\<close>

definition feed :: "(string \<Rightarrow> error + result) \<Rightarrow> string list \<Rightarrow> exchange" where
  "feed rf chunks = foldl (on_data rf) new_exchange chunks"

subsection \<open>The command functions (encoders)\<close>

text \<open>
  The options object \<^verbatim>\<open>{ priority, delay, ttr }\<close>: a field that is absent, or an
  options argument that is absent (the default \<^verbatim>\<open>{}\<close>), reads as \<^verbatim>\<open>undefined\<close>.
\<close>

record opts =
  priority :: jsval
  delay :: jsval
  ttr :: jsval

definition no_opts :: opts where
  "no_opts = \<lparr>priority = JUndefined, delay = JUndefined, ttr = JUndefined\<rparr>"

text \<open>\<^verbatim>\<open>assert(x)\<close>\<close>

definition assert :: "jsval \<Rightarrow> error + unit" where
  "assert x = (if truthy x then Inr () else Inl AssertionError)"

text \<open>
  \<^verbatim>\<open>Buffer.from(string, 'ascii')\<close>: the bytes of a string, one per character; a
  \<^verbatim>\<open>TypeError\<close> for a number, a boolean, \<^verbatim>\<open>undefined\<close> or \<^verbatim>\<open>null\<close>. The
  function \<^verbatim>\<open>put\<close> never hands it an object.
\<close>

fun Buffer_from :: "jsval \<Rightarrow> error + string" where
  "Buffer_from (JStr s) = Inr s"
| "Buffer_from _ = Inl TypeError"

definition pauseTube :: "jsval \<Rightarrow> opts \<Rightarrow> error + jsval" where
  "pauseTube tube os =
     Inr (JStr (''pause-tube '' @ toStr tube @ '' '' @ toStr (orElse (delay os) (JNum 0))))"

definition put :: "jsval \<Rightarrow> opts \<Rightarrow> error + jsval" where
  "put payload os =
     (case assert payload of
        Inl e \<Rightarrow> Inl e
      | Inr _ \<Rightarrow>
          (let string =
                 (if is_object payload
                  then (case payload of JObj ob \<Rightarrow> JStr (json_text ob) | _ \<Rightarrow> JStr ''null'')
                  else payload)
           in case Buffer_from string of
                Inl e \<Rightarrow> Inl e
              | Inr body \<Rightarrow>
                  Inr (JStr (''put '' @ toStr (orElse (priority os) (JNum 0)) @ '' ''
                         @ toStr (orElse (delay os) (JNum 0)) @ '' ''
                         @ toStr (orElse (ttr os) (JNum 60)) @ '' ''
                         @ show_nat (length body) @ CRLF @ toStr payload @ CRLF))))"

definition use :: "jsval \<Rightarrow> error + jsval" where
  "use tube =
     (case assert tube of
        Inl e \<Rightarrow> Inl e
      | Inr _ \<Rightarrow> Inr (JStr (''use '' @ toStr tube @ CRLF)))"

definition reserve :: "error + jsval" where
  "reserve = Inr (JStr (''reserve'' @ CRLF))"

definition reserveWithTimeout :: "jsval \<Rightarrow> error + jsval" where
  "reserveWithTimeout seconds = Inr (JStr (''reserve-with-timeout '' @ toStr seconds @ CRLF))"

definition delete :: "jsval \<Rightarrow> error + jsval" where
  "delete ident =
     (case assert ident of
        Inl e \<Rightarrow> Inl e
      | Inr _ \<Rightarrow> Inr (JStr (''delete '' @ toStr ident @ CRLF)))"

definition release :: "jsval \<Rightarrow> opts \<Rightarrow> error + jsval" where
  "release ident os =
     (case assert ident of
        Inl e \<Rightarrow> Inl e
      | Inr _ \<Rightarrow>
          Inr (JStr (''release '' @ toStr ident @ '' '' @ toStr (orElse (priority os) (JNum 0))
                 @ '' '' @ toStr (orElse (delay os) (JNum 0)) @ CRLF)))"

definition bury :: "jsval \<Rightarrow> opts \<Rightarrow> error + jsval" where
  "bury ident os =
     (case assert ident of
        Inl e \<Rightarrow> Inl e
      | Inr _ \<Rightarrow>
          Inr (JStr (''bury '' @ toStr ident @ '' '' @ toStr (orElse (priority os) (JNum 0))
                 @ CRLF)))"

definition touch :: "jsval \<Rightarrow> error + jsval" where
  "touch ident =
     (case assert ident of
        Inl e \<Rightarrow> Inl e
      | Inr _ \<Rightarrow> Inr (JStr (''touch '' @ toStr ident @ CRLF)))"

definition watch :: "jsval \<Rightarrow> error + jsval" where
  "watch tube =
     (case assert tube of
        Inl e \<Rightarrow> Inl e
      | Inr _ \<Rightarrow> Inr (JStr (''watch '' @ toStr tube @ CRLF)))"

definition ignore :: "jsval \<Rightarrow> error + jsval" where
  "ignore tube =
     (case assert tube of
        Inl e \<Rightarrow> Inl e
      | Inr _ \<Rightarrow> Inr (JStr (''ignore '' @ toStr tube @ CRLF)))"

definition peek :: "jsval \<Rightarrow> error + jsval" where
  "peek ident =
     (case assert ident of
        Inl e \<Rightarrow> Inl e
      | Inr _ \<Rightarrow> Inr (JStr (''peek '' @ toStr ident @ CRLF)))"

definition kick :: "jsval \<Rightarrow> error + jsval" where
  "kick bound =
     (case assert bound of
        Inl e \<Rightarrow> Inl e
      | Inr _ \<Rightarrow> Inr (JStr (''kick '' @ toStr bound @ CRLF)))"

definition kickJob :: "jsval \<Rightarrow> error + jsval" where
  "kickJob ident =
     (case assert ident of
        Inl e \<Rightarrow> Inl e
      | Inr _ \<Rightarrow> Inr (JStr (''kick-job '' @ toStr ident @ CRLF)))"

definition getCurrentTube :: "error + jsval" where
  "getCurrentTube = Inr (JStr (''list-tube-used'' @ CRLF))"

text \<open>
  The first argument of \<^verbatim>\<open>createCommandHandler\<close>, per command, applied to the
  first argument of the call and its options. \<^verbatim>\<open>executeCommand\<close> and
  \<^verbatim>\<open>executeMultiPartCommand\<close> hand their argument on as it is.
\<close>

fun commandFunction :: "command \<Rightarrow> jsval \<Rightarrow> opts \<Rightarrow> error + jsval" where
  "commandFunction ExecuteCommand a os = Inr a"
| "commandFunction ExecuteMultiPartCommand a os = Inr a"
| "commandFunction PauseTube a os = pauseTube a os"
| "commandFunction Put a os = put a os"
| "commandFunction Use a os = use a"
| "commandFunction Reserve a os = reserve"
| "commandFunction ReserveWithTimeout a os = reserveWithTimeout a"
| "commandFunction Delete a os = delete a"
| "commandFunction Release a os = release a os"
| "commandFunction Bury a os = bury a os"
| "commandFunction Touch a os = touch a"
| "commandFunction Watch a os = watch a"
| "commandFunction Ignore a os = ignore a"
| "commandFunction Peek a os = peek a"
| "commandFunction Kick a os = kick a"
| "commandFunction KickJob a os = kickJob a"
| "commandFunction GetCurrentTube a os = getCurrentTube"

lemmas command_defs =
  pauseTube_def put_def use_def reserve_def reserveWithTimeout_def delete_def release_def
  bury_def touch_def watch_def ignore_def peek_def kick_def kickJob_def getCurrentTube_def

subsection \<open>Writing a command and starting its exchange\<close>

text \<open>
  The transport: the bytes written to the socket so far, and whether the socket accepts
  a write (\<^verbatim>\<open>socket.write\<close> reports an error to its callback otherwise).
\<close>

record transport =
  written :: string
  writable :: bool

text \<open>
  \<^verbatim>\<open>JackdClient.prototype.write\<close>: \<^verbatim>\<open>assert(string)\<close>, then
  \<^verbatim>\<open>socket.write(string, 'ascii', ...)\<close>. Of the values of \<^typ>\<open>jsval\<close> the
  socket takes the strings only; the buffers it would take as well are no values of
  \<^typ>\<open>jsval\<close>.
\<close>

definition client_write :: "jsval \<Rightarrow> transport \<Rightarrow> error + transport" where
  "client_write string tr =
     (case assert string of
        Inl e \<Rightarrow> Inl e
      | Inr _ \<Rightarrow>
          (case string of
             JStr s \<Rightarrow>
               if writable tr then Inr (tr\<lparr>written := written tr @ s\<rparr>)
               else Inl TransportError
           | _ \<Rightarrow> Inl TypeError))"

text \<open>
  The function \<^verbatim>\<open>command()\<close> that \<^verbatim>\<open>createCommandHandler\<close> returns, up to the
  point where it listens for data: the command function runs first, its text is written,
  and the exchange starts. An error of either step rejects the call, and the transport is
  returned as it is then.
\<close>

definition command :: "command \<Rightarrow> jsval \<Rightarrow> opts \<Rightarrow> transport \<Rightarrow> (error + exchange) \<times> transport" where
  "command c a os tr =
     (case commandFunction c a os of
        Inl e \<Rightarrow> (Inl e, tr)
      | Inr line \<Rightarrow>
          (case client_write line tr of
             Inl e \<Rightarrow> (Inl e, tr)
           | Inr tr' \<Rightarrow> (Inr new_exchange, tr')))"

subsection \<open>The leading token of a line\<close>

text \<open>
  The status token of a response line is its first piece, the way the response functions
  take a line apart with \<^verbatim>\<open>split(' ')\<close>.
\<close>

definition token :: "string \<Rightarrow> string" where
  "token line = (case split line CHR '' '' of w # _ \<Rightarrow> w | [] \<Rightarrow> [])"

subsection \<open>The commands that check their argument\<close>

text \<open>The commands whose command function starts with \<^verbatim>\<open>assert\<close> of its first argument.\<close>

definition asserts_argument :: "command \<Rightarrow> bool" where
  "asserts_argument c =
     (c \<in> {Put, Use, Delete, Release, Bury, Touch, Watch, Ignore, Peek, Kick, KickJob})"

subsection \<open>The commands with a one-line response\<close>

text \<open>The commands whose response function never returns a continuation.\<close>

definition single_phase :: "command \<Rightarrow> bool" where
  "single_phase c = (c \<notin> {ExecuteMultiPartCommand, Reserve, ReserveWithTimeout, Peek})"

section \<open>Properties\<close>

subsection \<open>Finding the line delimiter\<close>

lemma CR_neq_LF [simp]: "CR \<noteq> LF" "LF \<noteq> CR"
  by (simp_all add: CR_def LF_def)

lemma indexOf_ge: "- 1 \<le> indexOf s pat"
  by (induction s) (auto simp: Let_def)

text \<open>A delimiter that follows a text free of delimiters is found right after the text.\<close>

lemma indexOf_CRLF_append:
  "indexOf h CRLF < 0 \<Longrightarrow> indexOf (h @ CRLF @ t) CRLF = int (length h)"
proof (induction h)
  case Nil
  show ?case by (simp add: CRLF_def startsWith_def)
next
  case (Cons c h)
  from Cons.prems have ns: "\<not> startsWith (c # h) CRLF" and neg: "indexOf h CRLF < 0"
    by (auto simp: Let_def split: if_splits)
  have "\<not> startsWith (c # h @ CRLF @ t) CRLF"
    using ns by (cases h) (auto simp: startsWith_def CRLF_def)
  then show ?case using Cons.IH [OF neg] by (simp add: Let_def)
qed

text \<open>Conversely, a position found splits the text there.\<close>

lemma indexOf_CRLF_split:
  "0 \<le> indexOf s CRLF \<Longrightarrow>
     \<exists>h t. s = h @ CRLF @ t \<and> indexOf h CRLF < 0 \<and> indexOf s CRLF = int (length h)"
proof (induction s)
  case Nil
  then show ?case by (simp add: CRLF_def)
next
  case (Cons c s)
  show ?case
  proof (cases "startsWith (c # s) CRLF")
    case True
    then obtain t where "c # s = CRLF @ t"
      by (cases s) (auto simp: startsWith_def CRLF_def)
    then have "c # s = [] @ CRLF @ t \<and> indexOf [] CRLF < 0
        \<and> indexOf (c # s) CRLF = int (length ([]::string))"
      using True by (simp add: CRLF_def)
    then show ?thesis by blast
  next
    case False
    with Cons.prems have "0 \<le> indexOf s CRLF"
      by (auto simp: Let_def split: if_splits)
    from Cons.IH [OF this] obtain h t where
      h: "s = h @ CRLF @ t" "indexOf h CRLF < 0" "indexOf s CRLF = int (length h)" by blast
    have ns: "\<not> startsWith (c # h) CRLF"
      using False h(1) by (cases h) (auto simp: startsWith_def CRLF_def)
    have "c # s = (c # h) @ CRLF @ t" using h(1) by simp
    moreover have "indexOf (c # h) CRLF < 0" using ns h(2) by (simp add: Let_def)
    moreover have "indexOf (c # s) CRLF = int (length (c # h))"
      using False h(3) by (simp add: Let_def)
    ultimately show ?thesis by blast
  qed
qed

subsection \<open>One call of the listener\<close>

text \<open>With a whole line in the buffer, the line is decoded and the buffer cleared.\<close>

lemma process_line:
  assumes "buffer st @ chunk = h @ CRLF @ t" and "indexOf h CRLF < 0"
  shows "processIncomingData rf st chunk ov =
     (case (case ov of Some f \<Rightarrow> f | None \<Rightarrow> rf) h of
        Inl err \<Rightarrow> reject (removeListener (st\<lparr>buffer := []\<rparr>)) err
      | Inr res \<Rightarrow>
          (case res of
             Fn k \<Rightarrow> if t \<noteq> [] then processIncomingData rf (st\<lparr>buffer := []\<rparr>) t (Some k)
                     else resolve (removeListener (st\<lparr>buffer := []\<rparr>)) res
           | _ \<Rightarrow> resolve (removeListener (st\<lparr>buffer := []\<rparr>)) res))"
proof -
  have i: "indexOf (buffer st @ chunk) CRLF = int (length h)"
    using assms indexOf_CRLF_append by simp
  have l: "length CRLF = 2" by (simp add: CRLF_def)
  have hd: "substring (buffer st @ chunk) 0 (length h) = h"
    using assms(1) by (simp add: substring_def)
  have tl: "substring (buffer st @ chunk) (length h + 2) (length (buffer st @ chunk)) = t"
    unfolding assms(1) substring_def using l by simp
  show ?thesis
    by (subst processIncomingData.simps) (simp only: Let_def i hd tl nat_int, simp)
qed

text \<open>Without a whole line, the chunk is kept in the buffer and nothing else happens.\<close>

lemma process_no_line:
  "indexOf (buffer st @ chunk) CRLF < 0 \<Longrightarrow>
     processIncomingData rf st chunk ov = st\<lparr>buffer := buffer st @ chunk\<rparr>"
  by (subst processIncomingData.simps) (simp add: Let_def)

lemma feed_one: "feed rf [chunk] = processIncomingData rf new_exchange chunk None"
  by (simp add: feed_def on_data_def new_exchange_def)

lemma feed_line_error:
  "indexOf line CRLF < 0 \<Longrightarrow> rf line = Inl e \<Longrightarrow>
     feed rf [line @ CRLF @ rest] = \<lparr>buffer = [], listening = False, settled = Some (Rejected e)\<rparr>"
  by (simp add: feed_one process_line [where h = line and t = rest] new_exchange_def
      reject_def removeListener_def)

subsection \<open>The shared error tokens\<close>

lemma split_first: "\<exists>ws. split line sep = takeWhile (\<lambda>c. c \<noteq> sep) line # ws"
  by (induction line) auto

lemma token_takeWhile: "token line = takeWhile (\<lambda>c. c \<noteq> CHR '' '') line"
  using split_first [of line "CHR '' ''"] by (auto simp: token_def)

text \<open>A line starts with its leading token, so the prefix test of the classifier sees it.\<close>

lemma startsWith_token: "startsWith line (token line)"
  unfolding startsWith_def token_takeWhile by (rule takeWhile_eq_take [symmetric])

lemma validate_shared:
  "e \<in> set errors \<Longrightarrow> startsWith line e \<Longrightarrow>
     validateAgainstErrors line additional = Inl (ProtocolError line)"
  by (auto simp: validateAgainstErrors_def list_ex_iff)

lemma response_shared:
  "e \<in> set errors \<Longrightarrow> startsWith line e \<Longrightarrow> responseFunction c line = Inl (ProtocolError line)"
  by (cases c) (simp_all add: response_defs validate_shared)

text \<open>
  Claim C5. For every command and every response line whose leading token is one of the
  five shared error codes, the response function throws the error that carries the raw
  line, whatever the command's own success tokens are, and an exchange that receives the
  line rejects with that error: no command reads such a line as a value.
\<close>

theorem shared_errors_fail_every_command:
  assumes "token line \<in> set errors"
  shows "responseFunction c line = Inl (ProtocolError line) \<and>
    (indexOf line CRLF < 0 \<longrightarrow>
       feed (responseFunction c) [line @ CRLF @ rest] =
         \<lparr>buffer = [], listening = False, settled = Some (Rejected (ProtocolError line))\<rparr>)"
  using response_shared [OF assms startsWith_token] feed_line_error by simp

lemma no_CRLF_OUT_OF_MEMORY: "indexOf ''OUT_OF_MEMORY'' CRLF < 0"
  by (simp add: startsWith_def CRLF_def CR_def LF_def)

theorem shared_errors_fail_every_command_witness:
  "token ''OUT_OF_MEMORY'' \<in> set errors \<and>
   responseFunction Put ''OUT_OF_MEMORY'' = Inl (ProtocolError ''OUT_OF_MEMORY'') \<and>
   indexOf ''OUT_OF_MEMORY'' CRLF < 0 \<and>
   feed (responseFunction Put) [''OUT_OF_MEMORY'' @ CRLF @ []] =
     \<lparr>buffer = [], listening = False, settled = Some (Rejected (ProtocolError ''OUT_OF_MEMORY''))\<rparr>"
proof -
  have t: "token ''OUT_OF_MEMORY'' \<in> set errors"
    by (simp add: token_def errors_def token_defs)
  show ?thesis
    using t no_CRLF_OUT_OF_MEMORY shared_errors_fail_every_command [OF t, of Put "[]"] by simp
qed

subsection \<open>Single chunks and settled exchanges\<close>

lemma feed_line_value:
  "indexOf line CRLF < 0 \<Longrightarrow> rf line = Inr res \<Longrightarrow> \<not> is_function res \<Longrightarrow>
     feed rf [line @ CRLF @ rest] = \<lparr>buffer = [], listening = False, settled = Some (Resolved res)\<rparr>"
  by (cases res)
     (simp_all add: feed_one process_line [where h = line and t = rest] new_exchange_def
      resolve_def removeListener_def)

text \<open>Once the listener is removed, later chunks do not reach the exchange.\<close>

lemma deaf_exchange: "\<not> listening st \<Longrightarrow> foldl (on_data rf) st chunks = st"
  by (induction chunks) (simp_all add: on_data_def)

lemma feed_Cons:
  "feed rf (chunk # chunks) =
     foldl (on_data rf) (processIncomingData rf new_exchange chunk None) chunks"
  by (simp add: feed_def on_data_def new_exchange_def)

lemma new_exchange_line:
  "indexOf h CRLF < 0 \<Longrightarrow>
   processIncomingData rf new_exchange (h @ CRLF @ t) ov =
     (case (case ov of Some f \<Rightarrow> f | None \<Rightarrow> rf) h of
        Inl err \<Rightarrow> \<lparr>buffer = [], listening = False, settled = Some (Rejected err)\<rparr>
      | Inr res \<Rightarrow>
          (case res of
             Fn k \<Rightarrow> if t \<noteq> [] then processIncomingData rf new_exchange t (Some k)
                     else \<lparr>buffer = [], listening = False, settled = Some (Resolved res)\<rparr>
           | _ \<Rightarrow> \<lparr>buffer = [], listening = False, settled = Some (Resolved res)\<rparr>))"
  by (subst process_line [where h = h and t = t])
     (simp_all add: new_exchange_def resolve_def reject_def removeListener_def
        split: sum.split result.split)

text \<open>
  A status line that ends its chunk: the continuation the decoder returns is what the
  promise resolves with, and the listener is gone before the payload comes.
\<close>

lemma feed_status_line_alone:
  assumes "indexOf head CRLF < 0" and "rf head = Inr (Fn k)"
  shows "feed rf ((head @ CRLF) # later) =
     \<lparr>buffer = [], listening = False, settled = Some (Resolved (Fn k))\<rparr>"
proof -
  have "processIncomingData rf new_exchange (head @ CRLF @ []) None =
      \<lparr>buffer = [], listening = False, settled = Some (Resolved (Fn k))\<rparr>"
    by (simp only: new_exchange_line [OF assms(1)]) (simp add: assms(2))
  then show ?thesis by (simp add: feed_Cons deaf_exchange)
qed

subsection \<open>The token BURIED\<close>

lemma no_CRLF_BURIED: "indexOf BURIED CRLF < 0"
  by (simp add: BURIED_def startsWith_def CRLF_def CR_def LF_def)

lemma startsWith_append [simp]: "startsWith (p @ rest) p"
  by (simp add: startsWith_def)

lemma bury_BURIED: "responseFunction Bury BURIED = Inr Undefined"
  by (simp add: bury_response_def validateAgainstErrors_def errors_def startsWith_def token_defs)

lemma put_BURIED: "responseFunction Put (BURIED @ rest) = Inl (ProtocolError (BURIED @ rest))"
  by (simp add: put_response_def validateAgainstErrors_def)

lemma release_BURIED:
  "responseFunction Release (BURIED @ rest) = Inl (ProtocolError (BURIED @ rest))"
  by (simp add: release_response_def validateAgainstErrors_def)

text \<open>
  Claim C6. The response line \<^verbatim>\<open>BURIED\<close> resolves the bury command with no value,
  while every line that begins with the token \<^verbatim>\<open>BURIED\<close> (the server adds the job
  id for put) fails put and release with the error that carries the raw line; the same
  holds for the exchanges that receive the line.
\<close>

theorem buried_dual_meaning:
  "responseFunction Bury BURIED = Inr Undefined \<and>
   responseFunction Put (BURIED @ rest) = Inl (ProtocolError (BURIED @ rest)) \<and>
   responseFunction Release (BURIED @ rest) = Inl (ProtocolError (BURIED @ rest)) \<and>
   feed (responseFunction Bury) [BURIED @ CRLF] =
     \<lparr>buffer = [], listening = False, settled = Some (Resolved Undefined)\<rparr> \<and>
   feed (responseFunction Put) [BURIED @ CRLF] =
     \<lparr>buffer = [], listening = False, settled = Some (Rejected (ProtocolError BURIED))\<rparr> \<and>
   feed (responseFunction Release) [BURIED @ CRLF] =
     \<lparr>buffer = [], listening = False, settled = Some (Rejected (ProtocolError BURIED))\<rparr>"
proof -
  have b: "feed (responseFunction Bury) [BURIED @ CRLF @ []] =
     \<lparr>buffer = [], listening = False, settled = Some (Resolved Undefined)\<rparr>"
    by (rule feed_line_value [where rf = "responseFunction Bury", OF no_CRLF_BURIED bury_BURIED])
       simp
  have p0: "responseFunction Put BURIED = Inl (ProtocolError BURIED)"
    using put_BURIED [of "[]"] by simp
  have r0: "responseFunction Release BURIED = Inl (ProtocolError BURIED)"
    using release_BURIED [of "[]"] by simp
  have p: "feed (responseFunction Put) [BURIED @ CRLF @ []] =
     \<lparr>buffer = [], listening = False, settled = Some (Rejected (ProtocolError BURIED))\<rparr>"
    using feed_line_error [where rf = "responseFunction Put", OF no_CRLF_BURIED p0] .
  have r: "feed (responseFunction Release) [BURIED @ CRLF @ []] =
     \<lparr>buffer = [], listening = False, settled = Some (Rejected (ProtocolError BURIED))\<rparr>"
    using feed_line_error [where rf = "responseFunction Release", OF no_CRLF_BURIED r0] .
  show ?thesis using b p r bury_BURIED put_BURIED release_BURIED by simp
qed

theorem buried_dual_meaning_witness:
  "responseFunction Bury ''BURIED'' = Inr Undefined \<and>
   responseFunction Put ''BURIED 42'' = Inl (ProtocolError ''BURIED 42'') \<and>
   responseFunction Release ''BURIED'' = Inl (ProtocolError ''BURIED'')"
  using buried_dual_meaning [of "'' 42''"] buried_dual_meaning [of "[]"]
  by (simp add: BURIED_def)

subsection \<open>Defaults of the numeric options\<close>









subsection \<open>Arguments that are missing\<close>

text \<open>
  The commands that assert their argument reject a missing or empty one, and the
  transport is as it was.
\<close>

lemma missing_argument_rejected:
  "asserts_argument c \<Longrightarrow> \<not> truthy a \<Longrightarrow> command c a os tr = (Inl AssertionError, tr)"
  by (auto simp: asserts_argument_def command_def command_defs assert_def)

text \<open>
  Claim C7. The command function of pause-tube has no such assertion: called without a
  tube name it encodes the text \<^verbatim>\<open>undefined\<close> in the tube's place, the text is
  written to the transport and the exchange starts.
\<close>

theorem pauseTube_without_tube_writes:
  "command PauseTube JUndefined no_opts \<lparr>written = [], writable = True\<rparr> =
     (Inr new_exchange, \<lparr>written = ''pause-tube undefined 0'', writable = True\<rparr>)"
  by (simp add: command_def pauseTube_def client_write_def assert_def orElse_def no_opts_def
      show_int_def show_nat.simps digit_def)

subsection \<open>The end of a command line\<close>

text \<open>Every command function but that of pause-tube ends its text with the delimiter.\<close>

lemma encoders_end_with_CRLF:
  "c \<notin> {ExecuteCommand, ExecuteMultiPartCommand, PauseTube} \<Longrightarrow>
   commandFunction c a os = Inr v \<Longrightarrow> \<exists>s. v = JStr (s @ CRLF)"
  by (cases c) (auto simp: command_defs Let_def split: sum.splits)

text \<open>
  Claim C8. The text the command function of pause-tube builds for the tube
  \<^verbatim>\<open>jobs\<close> is \<^verbatim>\<open>pause-tube jobs 0\<close>, with no line delimiter at its end.
\<close>

theorem pauseTube_line_not_terminated:
  "commandFunction PauseTube (JStr ''jobs'') no_opts = Inr (JStr ''pause-tube jobs 0'') \<and>
   (\<forall>s. ''pause-tube jobs 0'' \<noteq> s @ CRLF)"
proof -
  have "last ''pause-tube jobs 0'' \<noteq> last (s @ CRLF)" for s
    by (simp add: CRLF_def LF_def)
  then have "\<forall>s. ''pause-tube jobs 0'' \<noteq> s @ CRLF" by metis
  then show ?thesis
    by (simp add: pauseTube_def orElse_def no_opts_def show_int_def show_nat.simps digit_def)
qed

subsection \<open>The length that put declares\<close>

text \<open>For a string payload the length declared is the length of the bytes appended.\<close>

lemma put_string_length:
  "s \<noteq> [] \<Longrightarrow>
   put (JStr s) os =
     Inr (JStr (''put '' @ toStr (orElse (priority os) (JNum 0)) @ '' ''
            @ toStr (orElse (delay os) (JNum 0)) @ '' ''
            @ toStr (orElse (ttr os) (JNum 60)) @ '' ''
            @ show_nat (length s) @ CRLF @ s @ CRLF))"
  by (simp add: put_def assert_def)

text \<open>
  Claim C9. For the object \<^verbatim>\<open>{a: 1}\<close>, whose JSON text has 7 bytes, put declares 7
  bytes and appends the 15 bytes of \<^verbatim>\<open>[object Object]\<close>: the length is taken from
  the JSON text, the bytes from the payload itself.
\<close>

theorem put_object_length_mismatch:
  \<open>put (JObj \<lparr>json_text = ''{"a":1}'', string_text = ''[object Object]''\<rparr>) no_opts =
     Inr (JStr (''put 0 0 60 7'' @ CRLF @ ''[object Object]'' @ CRLF)) \<and>
   length ''[object Object]'' = 15\<close>
  by (simp add: put_def assert_def orElse_def no_opts_def show_int_def show_nat.simps digit_def)

subsection \<open>A response in one chunk and in several\<close>

lemma single_phase_no_continuation:
  "single_phase c \<Longrightarrow> responseFunction c line = Inr res \<Longrightarrow> \<not> is_function res"
  by (cases c)
     (auto simp: single_phase_def response_defs invalidResponse_def piece_def
        split: sum.splits if_splits option.splits)

lemma indexOf_neg_or_split:
  "indexOf s CRLF < 0 \<or> (\<exists>h t. s = h @ CRLF @ t \<and> indexOf h CRLF < 0)"
  using indexOf_CRLF_split [of s] by (cases "indexOf s CRLF < 0") auto

text \<open>
  While no line is complete the buffer holds all the chunks; the chunk that completes the
  line settles a decoder without continuations as the whole text would.
\<close>

lemma pending_chunks:
  assumes nf: "\<And>line res. rf line = Inr res \<Longrightarrow> \<not> is_function res"
  shows "indexOf b CRLF < 0 \<Longrightarrow>
    foldl (on_data rf) \<lparr>buffer = b, listening = True, settled = None\<rparr> chunks =
    processIncomingData rf \<lparr>buffer = b, listening = True, settled = None\<rparr> (concat chunks) None"
proof (induction chunks arbitrary: b)
  case Nil
  then show ?case by (simp add: process_no_line)
next
  case (Cons c cs)
  let ?st = "\<lparr>buffer = b, listening = True, settled = None\<rparr>"
  show ?case
  proof (cases "indexOf (b @ c) CRLF < 0")
    case True
    then have step: "on_data rf ?st c = \<lparr>buffer = b @ c, listening = True, settled = None\<rparr>"
      by (simp add: on_data_def process_no_line)
    have "processIncomingData rf \<lparr>buffer = b @ c, listening = True, settled = None\<rparr> (concat cs) None
        = processIncomingData rf ?st (c @ concat cs) None"
      by (subst (1 2) processIncomingData.simps) (simp add: Let_def)
    then show ?thesis using Cons.IH [OF True] step by simp
  next
    case False
    then obtain h t where ht: "b @ c = h @ CRLF @ t" "indexOf h CRLF < 0"
      using indexOf_neg_or_split [of "b @ c"] by blast
    have ht': "buffer ?st @ (c @ concat cs) = h @ CRLF @ (t @ concat cs)"
      using ht(1) by simp
    have ht0: "buffer ?st @ c = h @ CRLF @ t" using ht(1) by simp
    have eq: "processIncomingData rf ?st c None = processIncomingData rf ?st (c @ concat cs) None"
      and deaf: "\<not> listening (processIncomingData rf ?st c None)"
    proof -
      show "processIncomingData rf ?st c None = processIncomingData rf ?st (c @ concat cs) None"
      proof (cases "rf h")
        case (Inl e)
        then show ?thesis
          by (simp add: process_line [OF ht0 ht(2)] process_line [OF ht' ht(2)])
      next
        case (Inr res)
        with nf have "\<not> is_function res" by blast
        with Inr show ?thesis
          by (cases res) (simp_all add: process_line [OF ht0 ht(2)] process_line [OF ht' ht(2)])
      qed
      show "\<not> listening (processIncomingData rf ?st c None)"
      proof (cases "rf h")
        case (Inl e)
        then show ?thesis
          by (simp add: process_line [OF ht0 ht(2)] reject_def removeListener_def)
      next
        case (Inr res)
        with nf have "\<not> is_function res" by blast
        with Inr show ?thesis
          by (cases res) (simp_all add: process_line [OF ht0 ht(2)] resolve_def removeListener_def)
      qed
    qed
    have "foldl (on_data rf) ?st (c # cs) = foldl (on_data rf) (processIncomingData rf ?st c None) cs"
      by (simp add: on_data_def)
    also have "\<dots> = processIncomingData rf ?st c None"
      using deaf by (rule deaf_exchange)
    finally show ?thesis using eq by simp
  qed
qed

text \<open>
  For the commands with a one-line response, any way of cutting the bytes of a response
  into chunks leaves the exchange in the state the bytes in one chunk leave it in.
\<close>

lemma chunking_single_phase:
  assumes "single_phase c"
  shows "feed (responseFunction c) chunks = feed (responseFunction c) [concat chunks]"
proof -
  have "indexOf [] CRLF < 0" by (simp add: CRLF_def)
  from pending_chunks [of "responseFunction c", OF single_phase_no_continuation [OF assms] this]
  show ?thesis by (simp add: feed_def on_data_def new_exchange_def)
qed

lemma no_CRLF_RESERVED_42_5: "indexOf ''RESERVED 42 5'' CRLF < 0"
  by (simp add: startsWith_def CRLF_def CR_def LF_def)

lemma reserve_RESERVED_42_5:
  "reserveResponseHandler ''RESERVED 42 5'' = Inr (Fn (\<lambda>d. Inr (Job (Some ''42'') d)))"
  by (simp add: reserveResponseHandler_def validateAgainstErrors_def errors_def startsWith_def
      token_defs second_def)

lemma no_CRLF_hello: "indexOf ''hello'' CRLF < 0"
  by (simp add: startsWith_def CRLF_def CR_def LF_def)

lemma no_CRLF_hel: "indexOf ''hel'' CRLF < 0"
  by (simp add: startsWith_def CRLF_def CR_def LF_def)

lemma reserve_hello: "reserveResponseHandler ''hello'' = Inl (UnexpectedResponse ''hello'')"
  by (simp add: reserveResponseHandler_def validateAgainstErrors_def errors_def startsWith_def
      token_defs invalidResponse_def)

text \<open>
  Claim C2. When the chunk ends with the status line of a two-phase response, so that the
  remainder after the delimiter is empty, the exchange does not wait for the payload: it
  removes its listener and resolves with the continuation itself, and the chunks that
  follow change nothing.
\<close>

theorem status_line_alone_resolves_with_continuation:
  assumes "indexOf head CRLF < 0" and "responseFunction c head = Inr (Fn k)"
  shows "feed (responseFunction c) ((head @ CRLF) # later) =
     \<lparr>buffer = [], listening = False, settled = Some (Resolved (Fn k))\<rparr>"
  using assms by (rule feed_status_line_alone)

theorem status_line_alone_resolves_with_continuation_witness:
  "indexOf ''RESERVED 42 5'' CRLF < 0 \<and>
   responseFunction Reserve ''RESERVED 42 5'' = Inr (Fn (\<lambda>d. Inr (Job (Some ''42'') d))) \<and>
   feed (responseFunction Reserve) [''RESERVED 42 5'' @ CRLF, ''hello'' @ CRLF] =
     \<lparr>buffer = [], listening = False,
      settled = Some (Resolved (Fn (\<lambda>d. Inr (Job (Some ''42'') d))))\<rparr>"
  using no_CRLF_RESERVED_42_5 reserve_RESERVED_42_5
    status_line_alone_resolves_with_continuation
      [of "''RESERVED 42 5''" Reserve "\<lambda>d. Inr (Job (Some ''42'') d)" "[''hello'' @ CRLF]"]
  by simp

text \<open>
  Claim C1. The reserve response \<^verbatim>\<open>RESERVED 42 5\r\nhello\r\n\<close> resolves with the
  job when it comes in one chunk, with the continuation when the status line and the
  payload come in two chunks, and is rejected as an unexpected response when the chunk
  boundary lies inside the payload: in a later call of the listener the payload line is
  decoded by the response function of the command, not by the continuation.
\<close>

theorem reserve_split_differs_from_whole:
  "settled (feed (responseFunction Reserve) [''RESERVED 42 5'' @ CRLF @ ''hello'' @ CRLF]) =
     Some (Resolved (Job (Some ''42'') ''hello'')) \<and>
   settled (feed (responseFunction Reserve) [''RESERVED 42 5'' @ CRLF, ''hello'' @ CRLF]) =
     Some (Resolved (Fn (\<lambda>d. Inr (Job (Some ''42'') d)))) \<and>
   settled (feed (responseFunction Reserve) [''RESERVED 42 5'' @ CRLF @ ''hel'', ''lo'' @ CRLF]) =
     Some (Rejected (UnexpectedResponse ''hello''))"
proof -
  let ?rf = "reserveResponseHandler"
  let ?k = "\<lambda>d. Inr (Job (Some ''42'') d)"
  have pay: "processIncomingData ?rf new_exchange (''hello'' @ CRLF @ []) (Some ?k) =
      \<lparr>buffer = [], listening = False, settled = Some (Resolved (Job (Some ''42'') ''hello''))\<rparr>"
    by (simp only: new_exchange_line [OF no_CRLF_hello]) simp
  have "processIncomingData ?rf new_exchange (''RESERVED 42 5'' @ CRLF @ (''hello'' @ CRLF)) None =
      \<lparr>buffer = [], listening = False, settled = Some (Resolved (Job (Some ''42'') ''hello''))\<rparr>"
    using pay by (simp only: new_exchange_line [OF no_CRLF_RESERVED_42_5])
      (simp add: reserve_RESERVED_42_5 CRLF_def)
  then have whole: "settled (feed ?rf [''RESERVED 42 5'' @ CRLF @ ''hello'' @ CRLF]) =
     Some (Resolved (Job (Some ''42'') ''hello''))"
    by (simp add: feed_one)
  have two: "settled (feed ?rf [''RESERVED 42 5'' @ CRLF, ''hello'' @ CRLF]) =
     Some (Resolved (Fn ?k))"
    using feed_status_line_alone
      [where rf = ?rf and k = ?k, OF no_CRLF_RESERVED_42_5 reserve_RESERVED_42_5] by simp
  have part: "processIncomingData ?rf new_exchange (''hel'') (Some ?k) =
      \<lparr>buffer = ''hel'', listening = True, settled = None\<rparr>"
    using no_CRLF_hel by (subst process_no_line) (simp_all add: new_exchange_def)
  have first: "processIncomingData ?rf new_exchange (''RESERVED 42 5'' @ CRLF @ ''hel'') None =
      \<lparr>buffer = ''hel'', listening = True, settled = None\<rparr>"
    using part by (simp only: new_exchange_line [OF no_CRLF_RESERVED_42_5])
      (simp add: reserve_RESERVED_42_5)
  have "processIncomingData ?rf \<lparr>buffer = ''hel'', listening = True, settled = None\<rparr>
      (''lo'' @ CRLF) None =
      \<lparr>buffer = [], listening = False, settled = Some (Rejected (UnexpectedResponse ''hello''))\<rparr>"
    using no_CRLF_hello
    by (subst process_line [where h = "''hello''" and t = "[]"])
       (simp_all add: reserve_hello reject_def removeListener_def)
  then have split: "settled (feed ?rf [''RESERVED 42 5'' @ CRLF @ ''hel'', ''lo'' @ CRLF]) =
     Some (Rejected (UnexpectedResponse ''hello''))"
    by (simp only: feed_Cons first) (simp add: on_data_def)
  show ?thesis using whole two split by simp
qed

subsection \<open>The payload of a two-phase response\<close>

text \<open>The continuation of reserve and peek keeps the id and wraps what it is given.\<close>

lemma two_phase_continuation:
  assumes "c \<in> {Reserve, ReserveWithTimeout, Peek}" and "responseFunction c head = Inr (Fn k)"
  shows "k = (\<lambda>deferredResponse. Inr (Job (second (split head CHR '' '')) deferredResponse))"
  using assms
  by (auto simp: reserveResponseHandler_def peek_response_def invalidResponse_def
      split: sum.splits if_splits)

lemma no_CRLF_nonempty_pending:
  "indexOf t CRLF < 0 \<Longrightarrow>
   processIncomingData rf new_exchange t ov = \<lparr>buffer = t, listening = True, settled = None\<rparr>"
  by (subst process_no_line) (simp_all add: new_exchange_def)

text \<open>
  Claim C3, as amended. When the status line of reserve, reserve-with-timeout or peek and
  what follows it come in one chunk, the payload handed to the continuation is the text
  between the delimiter of the status line and the next delimiter, whatever length the
  status line declares; and while the text after the status line holds no delimiter,
  nothing is extracted: the text stays in the buffer and the exchange is pending.
\<close>

theorem payload_is_cut_at_first_CRLF:
  assumes "c \<in> {Reserve, ReserveWithTimeout, Peek}"
    and "responseFunction c head = Inr (Fn k)"
    and "indexOf head CRLF < 0"
  shows "(indexOf p CRLF < 0 \<longrightarrow>
            feed (responseFunction c) [head @ CRLF @ p @ CRLF @ rest] =
              \<lparr>buffer = [], listening = False,
               settled = Some (Resolved (Job (second (split head CHR '' '')) p))\<rparr>) \<and>
         (t \<noteq> [] \<and> indexOf t CRLF < 0 \<longrightarrow>
            feed (responseFunction c) [head @ CRLF @ t] =
              \<lparr>buffer = t, listening = True, settled = None\<rparr>)"
proof -
  let ?rf = "responseFunction c"
  have k: "k = (\<lambda>d. Inr (Job (second (split head CHR '' '')) d))"
    using assms(1,2) by (rule two_phase_continuation)
  have ne: "p @ CRLF @ rest \<noteq> []" by (simp add: CRLF_def)
  have a: "feed ?rf [head @ CRLF @ p @ CRLF @ rest] =
      \<lparr>buffer = [], listening = False,
       settled = Some (Resolved (Job (second (split head CHR '' '')) p))\<rparr>"
    if p: "indexOf p CRLF < 0"
  proof -
    have "processIncomingData ?rf new_exchange (p @ CRLF @ rest) (Some k) =
        \<lparr>buffer = [], listening = False,
         settled = Some (Resolved (Job (second (split head CHR '' '')) p))\<rparr>"
      by (simp only: new_exchange_line [OF p]) (simp add: k)
    then have "processIncomingData ?rf new_exchange (head @ CRLF @ (p @ CRLF @ rest)) None =
        \<lparr>buffer = [], listening = False,
         settled = Some (Resolved (Job (second (split head CHR '' '')) p))\<rparr>"
      using ne by (simp only: new_exchange_line [OF assms(3)]) (simp add: assms(2))
    then show ?thesis by (simp only: feed_one)
  qed
  have b: "feed ?rf [head @ CRLF @ t] = \<lparr>buffer = t, listening = True, settled = None\<rparr>"
    if t: "t \<noteq> []" "indexOf t CRLF < 0"
  proof -
    have "processIncomingData ?rf new_exchange (head @ CRLF @ t) None =
        \<lparr>buffer = t, listening = True, settled = None\<rparr>"
      using t(1) no_CRLF_nonempty_pending [OF t(2), of ?rf "Some k"]
      by (simp only: new_exchange_line [OF assms(3)]) (simp add: assms(2))
    then show ?thesis by (simp only: feed_one)
  qed
  show ?thesis using a b by blast
qed

lemma no_CRLF_RESERVED_42_7: "indexOf ''RESERVED 42 7'' CRLF < 0"
  by (simp add: startsWith_def CRLF_def CR_def LF_def)

lemma reserve_RESERVED_42_7:
  "reserveResponseHandler ''RESERVED 42 7'' = Inr (Fn (\<lambda>d. Inr (Job (Some ''42'') d)))"
  by (simp add: reserveResponseHandler_def validateAgainstErrors_def errors_def startsWith_def
      token_defs second_def)

lemma no_CRLF_he: "indexOf ''he'' CRLF < 0"
  by (simp add: startsWith_def CRLF_def CR_def LF_def)

theorem payload_is_cut_at_first_CRLF_witness:
  "Reserve \<in> {Reserve, ReserveWithTimeout, Peek} \<and>
   responseFunction Reserve ''RESERVED 42 7'' = Inr (Fn (\<lambda>d. Inr (Job (Some ''42'') d))) \<and>
   indexOf ''RESERVED 42 7'' CRLF < 0 \<and> indexOf ''he'' CRLF < 0 \<and>
   feed (responseFunction Reserve) [''RESERVED 42 7'' @ CRLF @ ''he'' @ CRLF @ ''llo'' @ CRLF] =
     \<lparr>buffer = [], listening = False, settled = Some (Resolved (Job (Some ''42'') ''he''))\<rparr> \<and>
   feed (responseFunction Reserve) [''RESERVED 42 7'' @ CRLF @ ''he''] =
     \<lparr>buffer = ''he'', listening = True, settled = None\<rparr>"
  using no_CRLF_RESERVED_42_7 reserve_RESERVED_42_7 no_CRLF_he
    payload_is_cut_at_first_CRLF [of Reserve "''RESERVED 42 7''" "\<lambda>d. Inr (Job (Some ''42'') d)"
      "''he''" "''llo'' @ CRLF" "''he''"]
  by (simp add: second_def)

text \<open>
  Claim C3 fails as stated: the response \<^verbatim>\<open>RESERVED 42 7\<close> followed by the seven
  payload bytes \<^verbatim>\<open>he\r\nllo\<close> resolves with the two bytes \<^verbatim>\<open>he\<close>.
\<close>

theorem payload_length_counterexample:
  "feed (responseFunction Reserve) [''RESERVED 42 7'' @ CRLF @ ''he'' @ CRLF @ ''llo'' @ CRLF] =
     \<lparr>buffer = [], listening = False, settled = Some (Resolved (Job (Some ''42'') ''he''))\<rparr> \<and>
   length (''he'' @ CRLF @ ''llo'') = 7 \<and> length ''he'' = 2"
proof -
  let ?rf = "reserveResponseHandler"
  let ?k = "\<lambda>d. Inr (Job (Some ''42'') d)"
  have "processIncomingData ?rf new_exchange (''he'' @ CRLF @ (''llo'' @ CRLF)) (Some ?k) =
      \<lparr>buffer = [], listening = False, settled = Some (Resolved (Job (Some ''42'') ''he''))\<rparr>"
    by (simp only: new_exchange_line [OF no_CRLF_he]) simp
  then have "processIncomingData ?rf new_exchange
      (''RESERVED 42 7'' @ CRLF @ (''he'' @ CRLF @ ''llo'' @ CRLF)) None =
      \<lparr>buffer = [], listening = False, settled = Some (Resolved (Job (Some ''42'') ''he''))\<rparr>"
    by (simp only: new_exchange_line [OF no_CRLF_RESERVED_42_7])
       (simp add: reserve_RESERVED_42_7 CRLF_def)
  then show ?thesis by (simp add: feed_one CRLF_def)
qed

subsection \<open>What follows a line\<close>

text \<open>
  Claim C4, as amended. A chunk that completes no line is kept whole in the buffer. When
  a line is split off and its decoder returns a continuation, a remainder that is not
  empty is handed on at once, to the same function with the continuation as decoder.
  When the decoder returns a result that is not a function, or throws, the promise is
  settled from a cleared buffer and the remainder is part of nothing: the state reached
  does not depend on it.
\<close>

theorem remainder_after_line:
  "(indexOf (buffer st @ chunk) CRLF < 0 \<longrightarrow>
      processIncomingData rf st chunk ov = st\<lparr>buffer := buffer st @ chunk\<rparr>) \<and>
   (buffer st @ chunk = head @ CRLF @ tail \<and> indexOf head CRLF < 0 \<longrightarrow>
      (\<forall>k. (case ov of Some f \<Rightarrow> f | None \<Rightarrow> rf) head = Inr (Fn k) \<and> tail \<noteq> [] \<longrightarrow>
         processIncomingData rf st chunk ov =
           processIncomingData rf (st\<lparr>buffer := []\<rparr>) tail (Some k)) \<and>
      (\<forall>res. (case ov of Some f \<Rightarrow> f | None \<Rightarrow> rf) head = Inr res \<and> \<not> is_function res \<longrightarrow>
         processIncomingData rf st chunk ov = resolve (removeListener (st\<lparr>buffer := []\<rparr>)) res \<and>
         buffer (processIncomingData rf st chunk ov) = []) \<and>
      (\<forall>e. (case ov of Some f \<Rightarrow> f | None \<Rightarrow> rf) head = Inl e \<longrightarrow>
         processIncomingData rf st chunk ov = reject (removeListener (st\<lparr>buffer := []\<rparr>)) e \<and>
         buffer (processIncomingData rf st chunk ov) = []))"
proof -
  have a: "processIncomingData rf st chunk ov = st\<lparr>buffer := buffer st @ chunk\<rparr>"
    if "indexOf (buffer st @ chunk) CRLF < 0"
    using that by (rule process_no_line)
  have b: "processIncomingData rf st chunk ov =
      processIncomingData rf (st\<lparr>buffer := []\<rparr>) tail (Some k)"
    if "buffer st @ chunk = head @ CRLF @ tail" "indexOf head CRLF < 0"
      "(case ov of Some f \<Rightarrow> f | None \<Rightarrow> rf) head = Inr (Fn k)" "tail \<noteq> []" for k
    using that(3,4) by (simp add: process_line [OF that(1,2)])
  have c: "processIncomingData rf st chunk ov = resolve (removeListener (st\<lparr>buffer := []\<rparr>)) res \<and>
      buffer (processIncomingData rf st chunk ov) = []"
    if "buffer st @ chunk = head @ CRLF @ tail" "indexOf head CRLF < 0"
      "(case ov of Some f \<Rightarrow> f | None \<Rightarrow> rf) head = Inr res" "\<not> is_function res" for res
    using that(3,4)
    by (cases res)
       (simp_all add: process_line [OF that(1,2)] resolve_def removeListener_def
          split: option.split)
  have d: "processIncomingData rf st chunk ov = reject (removeListener (st\<lparr>buffer := []\<rparr>)) e \<and>
      buffer (processIncomingData rf st chunk ov) = []"
    if "buffer st @ chunk = head @ CRLF @ tail" "indexOf head CRLF < 0"
      "(case ov of Some f \<Rightarrow> f | None \<Rightarrow> rf) head = Inl e" for e
    using that(3)
    by (simp add: process_line [OF that(1,2)] reject_def removeListener_def split: option.split)
  show ?thesis using a b c d by blast
qed

lemma no_CRLF_INSERTED_42: "indexOf ''INSERTED 42'' CRLF < 0"
  by (simp add: startsWith_def CRLF_def CR_def LF_def)

lemma put_INSERTED_42: "put_response ''INSERTED 42'' = Inr (Str ''42'')"
  by (simp add: put_response_def validateAgainstErrors_def errors_def startsWith_def
      token_defs second_def piece_def)

text \<open>
  Claim C4 fails as stated: after \<^verbatim>\<open>INSERTED 42\r\nxyz\<close> the put exchange is
  resolved with an empty buffer and no listener, exactly as after
  \<^verbatim>\<open>INSERTED 42\r\n\<close>; the bytes \<^verbatim>\<open>xyz\<close> are dropped.
\<close>

theorem remainder_dropped_counterexample:
  "feed (responseFunction Put) [''INSERTED 42'' @ CRLF @ ''xyz''] =
     \<lparr>buffer = [], listening = False, settled = Some (Resolved (Str ''42''))\<rparr> \<and>
   feed (responseFunction Put) [''INSERTED 42'' @ CRLF @ ''xyz''] =
     feed (responseFunction Put) [''INSERTED 42'' @ CRLF @ []]"
proof -
  have "feed put_response [''INSERTED 42'' @ CRLF @ t] =
      \<lparr>buffer = [], listening = False, settled = Some (Resolved (Str ''42''))\<rparr>" for t
    by (rule feed_line_value [where rf = put_response, OF no_CRLF_INSERTED_42 put_INSERTED_42])
       simp
  from this [of "''xyz''"] this [of "[]"] show ?thesis by simp
qed

theorem remainder_after_line_witness:
  "buffer new_exchange @ (''INSERTED 42'' @ CRLF @ ''xyz'') = ''INSERTED 42'' @ CRLF @ ''xyz'' \<and>
   indexOf ''INSERTED 42'' CRLF < 0 \<and>
   put_response ''INSERTED 42'' = Inr (Str ''42'') \<and> \<not> is_function (Str ''42'') \<and>
   processIncomingData put_response new_exchange (''INSERTED 42'' @ CRLF @ ''xyz'') None =
     resolve (removeListener (new_exchange\<lparr>buffer := []\<rparr>)) (Str ''42'') \<and>
   buffer (processIncomingData put_response new_exchange (''INSERTED 42'' @ CRLF @ ''xyz'') None) = []"
proof -
  let ?chunk = "''INSERTED 42'' @ CRLF @ ''xyz''"
  have b: "buffer new_exchange @ ?chunk = ''INSERTED 42'' @ CRLF @ ''xyz''"
    by (simp only: new_exchange_def exchange.simps append_Nil)
  have r: "(case None of Some f \<Rightarrow> f | None \<Rightarrow> put_response) ''INSERTED 42'' = Inr (Str ''42'')"
    by (simp only: option.case put_INSERTED_42)
  have f: "\<not> is_function (Str ''42'')"
    by (simp only: is_function.simps not_False_eq_True)
  from remainder_after_line [of new_exchange ?chunk put_response None "''INSERTED 42''" "''xyz''"]
    b no_CRLF_INSERTED_42 r f
  have "processIncomingData put_response new_exchange ?chunk None =
      resolve (removeListener (new_exchange\<lparr>buffer := []\<rparr>)) (Str ''42'') \<and>
    buffer (processIncomingData put_response new_exchange ?chunk None) = []"
    by blast
  with b no_CRLF_INSERTED_42 put_INSERTED_42 f show ?thesis by blast
qed

end
